theory Spec2Isabelle
  imports Main
begin

section \<open>Data model of \<^verbatim>\<open>bookwyrm/models/notification.py\<close>\<close>

text \<open>
  The module creates and removes notification rows in reaction to the saving and
  deleting of favorites, statuses, boosts, import jobs and reports. A procedure of
  the module is modelled as a function from the database before the call to a
  pair: the exception the call raises, or \<open>None\<close> when it returns, and the
  database as the call leaves it.
\<close>

text \<open>
  Model instances are identified by their primary key; Django compares two
  instances of one model by primary key (\<^verbatim>\<open>user == related_user\<close>).
  \<^verbatim>\<open>user_permissions\<close> holds the names of the permission rows linked to the
  user, one entry per row of the join that the admin query walks.
\<close>

record user =
  user_pk :: nat
  local :: bool
  is_superuser :: bool
  user_permissions :: "string list"

definition user_eq :: "user \<Rightarrow> user \<Rightarrow> bool" where
  "user_eq u v = (user_pk u = user_pk v)"

datatype status =
  Status (status_pk: nat) (status_user: user) (deleted: bool)
         (reply_parent: "status option") (mention_users: "user list")

record favorite =
  fav_user :: user
  fav_status :: status

record boost =
  boost_user :: user
  boosted_status :: status

record import_job =
  import_pk :: nat
  import_user :: user
  complete :: bool

record report =
  report_pk :: nat

text \<open>The values of the \<^verbatim>\<open>NotificationType\<close> text choices: each name is its own value.\<close>

definition NotificationType_values :: "string list" where
  "NotificationType_values =
     [''FAVORITE'', ''REPLY'', ''MENTION'', ''TAG'', ''FOLLOW'', ''FOLLOW_REQUEST'',
      ''BOOST'', ''IMPORT'', ''ADD'', ''REPORT'', ''INVITE'', ''ACCEPT'', ''JOIN'',
      ''LEAVE'', ''REMOVE'', ''GROUP_PRIVACY'', ''GROUP_NAME'', ''GROUP_DESCRIPTION'']"

text \<open>
  A row of the notification table. Foreign keys hold the primary key of the row
  they point to (\<^verbatim>\<open>null=True\<close> ones are optional); a many-to-many field is the
  set of primary keys linked to the notification.
\<close>

record notification =
  pk :: nat
  user_id :: nat
  read :: bool
  notification_type :: string
  related_users :: "nat set"
  related_groups :: "nat set"
  related_status_id :: "nat option"
  related_import_id :: "nat option"
  related_list_items :: "nat set"
  related_reports :: "nat set"

text \<open>
  The in-memory instance that \<^verbatim>\<open>get_or_create\<close> and \<^verbatim>\<open>get\<close> return: the column
  values read from the row, and the plain Python attribute \<^verbatim>\<open>unread\<close> that
  \<^verbatim>\<open>notify\<close> sets on it (absent until assigned; it is not a field of the model).
\<close>

record notification_instance =
  row :: notification
  unread :: "bool option"

text \<open>The database: the notification table with its key sequence, and the user table.\<close>

record db =
  notifications :: "notification list"
  next_pk :: nat
  users :: "user list"

datatype error = DoesNotExist | MultipleObjectsReturned | IntegrityError | OperationalError

text \<open>
  Every ORM call talks to the database and may raise. The environment names the
  calls at which the connection fails; \<open>no_failure\<close> is a working database.
\<close>

datatype orm_call =
  GetOrCreate | RelatedUsersAdd | Save | FilterGet | RelatedUsersRemove
  | RelatedUsersExists | Delete | FilterDelete | Create | UsersFilter | RelatedReportsAdd

type_synonym env = "orm_call \<Rightarrow> bool"

definition no_failure :: env where
  "no_failure c = False"

text \<open>The keyword arguments \<^verbatim>\<open>**kwargs\<close> of a lookup; \<open>None\<close> is a keyword not given.\<close>

record kwargs =
  kw_notification_type :: "string option"
  kw_related_status :: "nat option"
  kw_related_import :: "nat option"

section \<open>ORM primitives\<close>

text \<open>\<^verbatim>\<open>filter(user=user, **kwargs)\<close>: a row matches when every given keyword agrees.\<close>

definition matches :: "nat \<Rightarrow> kwargs \<Rightarrow> notification \<Rightarrow> bool" where
  "matches uid kw n =
     (user_id n = uid
      \<and> (case kw_notification_type kw of None \<Rightarrow> True | Some t \<Rightarrow> notification_type n = t)
      \<and> (case kw_related_status kw of None \<Rightarrow> True | Some s \<Rightarrow> related_status_id n = Some s)
      \<and> (case kw_related_import kw of None \<Rightarrow> True | Some j \<Rightarrow> related_import_id n = Some j))"

text \<open>
  The row that \<^verbatim>\<open>create(user=user, **kwargs)\<close> inserts: \<^verbatim>\<open>read\<close> defaults to False, a
  character field not given is the empty string, the other links are empty.
\<close>

definition new_row :: "nat \<Rightarrow> nat \<Rightarrow> kwargs \<Rightarrow> notification" where
  "new_row p uid kw =
     \<lparr> pk = p, user_id = uid, read = False,
       notification_type = (case kw_notification_type kw of None \<Rightarrow> [] | Some t \<Rightarrow> t),
       related_users = {}, related_groups = {},
       related_status_id = kw_related_status kw,
       related_import_id = kw_related_import kw,
       related_list_items = {}, related_reports = {} \<rparr>"

text \<open>The check constraint \<^verbatim>\<open>notification_type_valid\<close> of the table.\<close>

definition notification_type_valid :: "notification \<Rightarrow> bool" where
  "notification_type_valid n = (notification_type n \<in> set NotificationType_values)"

definition insert_row :: "nat \<Rightarrow> kwargs \<Rightarrow> db \<Rightarrow> (error + notification_instance) \<times> db" where
  "insert_row uid kw d =
     (let n = new_row (next_pk d) uid kw in
      if \<not> notification_type_valid n then (Inl IntegrityError, d)
      else (Inr \<lparr> row = n, unread = None \<rparr>,
            d\<lparr> notifications := notifications d @ [n], next_pk := Suc (next_pk d) \<rparr>))"

definition create :: "env \<Rightarrow> nat \<Rightarrow> kwargs \<Rightarrow> db \<Rightarrow> (error + notification_instance) \<times> db" where
  "create fails uid kw d =
     (if fails Create then (Inl OperationalError, d) else insert_row uid kw d)"

definition get_or_create ::
    "env \<Rightarrow> nat \<Rightarrow> kwargs \<Rightarrow> db \<Rightarrow> (error + notification_instance) \<times> db" where
  "get_or_create fails uid kw d =
     (if fails GetOrCreate then (Inl OperationalError, d)
      else case filter (matches uid kw) (notifications d) of
             [] \<Rightarrow> insert_row uid kw d
           | [n] \<Rightarrow> (Inr \<lparr> row = n, unread = None \<rparr>, d)
           | _ \<Rightarrow> (Inl MultipleObjectsReturned, d))"

text \<open>\<^verbatim>\<open>filter(user=user, **kwargs).get()\<close>\<close>

definition filter_get ::
    "env \<Rightarrow> nat \<Rightarrow> kwargs \<Rightarrow> db \<Rightarrow> (error + notification_instance) \<times> db" where
  "filter_get fails uid kw d =
     (if fails FilterGet then (Inl OperationalError, d)
      else case filter (matches uid kw) (notifications d) of
             [] \<Rightarrow> (Inl DoesNotExist, d)
           | [n] \<Rightarrow> (Inr \<lparr> row = n, unread = None \<rparr>, d)
           | _ \<Rightarrow> (Inl MultipleObjectsReturned, d))"

text \<open>Row-wise update of the rows whose primary key is that of the instance.\<close>

definition update_rows :: "nat \<Rightarrow> (notification \<Rightarrow> notification) \<Rightarrow> db \<Rightarrow> db" where
  "update_rows p f d =
     d\<lparr> notifications := map (\<lambda>n. if pk n = p then f n else n) (notifications d) \<rparr>"

text \<open>\<^verbatim>\<open>notification.related_users.add(u)\<close> and \<^verbatim>\<open>.remove(u)\<close> write the link table at once.\<close>

definition related_users_add ::
    "env \<Rightarrow> notification_instance \<Rightarrow> user \<Rightarrow> db \<Rightarrow> error option \<times> db" where
  "related_users_add fails inst u d =
     (if fails RelatedUsersAdd then (Some OperationalError, d)
      else (None, update_rows (pk (row inst))
                    (\<lambda>n. n\<lparr> related_users := insert (user_pk u) (related_users n) \<rparr>) d))"

definition related_users_remove ::
    "env \<Rightarrow> notification_instance \<Rightarrow> user \<Rightarrow> db \<Rightarrow> error option \<times> db" where
  "related_users_remove fails inst u d =
     (if fails RelatedUsersRemove then (Some OperationalError, d)
      else (None, update_rows (pk (row inst))
                    (\<lambda>n. n\<lparr> related_users := related_users n - {user_pk u} \<rparr>) d))"

text \<open>\<^verbatim>\<open>notification.related_users.exists()\<close> asks the database, not the instance.\<close>

definition related_users_exists ::
    "env \<Rightarrow> notification_instance \<Rightarrow> db \<Rightarrow> (error + bool) \<times> db" where
  "related_users_exists fails inst d =
     (if fails RelatedUsersExists then (Inl OperationalError, d)
      else (Inr (\<exists>n \<in> set (notifications d). pk n = pk (row inst) \<and> related_users n \<noteq> {}), d))"


text \<open>
  \<^verbatim>\<open>notification.save()\<close> writes the columns of the instance to its row. Attributes
  that are not fields, and the many-to-many links, are not part of the update. The
  instance saved by \<^verbatim>\<open>notify\<close> was fetched or created in the same call, so its row
  is in the table and the save is an update.
\<close>

definition save :: "env \<Rightarrow> notification_instance \<Rightarrow> db \<Rightarrow> error option \<times> db" where
  "save fails inst d =
     (if fails Save then (Some OperationalError, d)
      else (None, update_rows (pk (row inst))
                    (\<lambda>n. n\<lparr> user_id := user_id (row inst), read := read (row inst),
                            notification_type := notification_type (row inst),
                            related_status_id := related_status_id (row inst),
                            related_import_id := related_import_id (row inst) \<rparr>) d))"

definition delete :: "env \<Rightarrow> notification_instance \<Rightarrow> db \<Rightarrow> error option \<times> db" where
  "delete fails inst d =
     (if fails Delete then (Some OperationalError, d)
      else (None, d\<lparr> notifications := filter (\<lambda>n. pk n \<noteq> pk (row inst)) (notifications d) \<rparr>))"

text \<open>\<^verbatim>\<open>Notification.objects.filter(related_status=instance).delete()\<close>\<close>

definition filter_delete :: "env \<Rightarrow> status \<Rightarrow> db \<Rightarrow> error option \<times> db" where
  "filter_delete fails s d =
     (if fails FilterDelete then (Some OperationalError, d)
      else (None, d\<lparr> notifications :=
                       filter (\<lambda>n. related_status_id n \<noteq> Some (status_pk s)) (notifications d) \<rparr>))"

text \<open>
  \<^verbatim>\<open>transaction.atomic\<close>: when the wrapped body raises, the database is rolled back
  to what it was on entry and the exception goes on to the caller.
\<close>

definition atomic :: "(db \<Rightarrow> error option \<times> db) \<Rightarrow> db \<Rightarrow> error option \<times> db" where
  "atomic body d = (case body d of (Some e, d') \<Rightarrow> (Some e, d) | (None, d') \<Rightarrow> (None, d'))"

section \<open>\<^verbatim>\<open>Notification.notify\<close> and \<^verbatim>\<open>Notification.unnotify\<close>\<close>

definition notify_body :: "env \<Rightarrow> user \<Rightarrow> user \<Rightarrow> kwargs \<Rightarrow> db \<Rightarrow> error option \<times> db" where
  "notify_body fails u related_user kw d =
     (if \<not> local u \<or> user_eq u related_user then (None, d)
      else case get_or_create fails (user_pk u) kw d of
             (Inl e, d1) \<Rightarrow> (Some e, d1)
           | (Inr notification, d1) \<Rightarrow>
               (case related_users_add fails notification related_user d1 of
                  (Some e, d2) \<Rightarrow> (Some e, d2)
                | (None, d2) \<Rightarrow> save fails (notification\<lparr> unread := Some True \<rparr>) d2))"

definition notify :: "env \<Rightarrow> user \<Rightarrow> user \<Rightarrow> kwargs \<Rightarrow> db \<Rightarrow> error option \<times> db" where
  "notify fails u related_user kw = atomic (notify_body fails u related_user kw)"

text \<open>\<^verbatim>\<open>unnotify\<close> carries no \<^verbatim>\<open>transaction.atomic\<close>: each call is committed as it is made.\<close>

definition unnotify :: "env \<Rightarrow> user \<Rightarrow> user \<Rightarrow> kwargs \<Rightarrow> db \<Rightarrow> error option \<times> db" where
  "unnotify fails u related_user kw d =
     (case filter_get fails (user_pk u) kw d of
        (Inl DoesNotExist, d1) \<Rightarrow> (None, d1)
      | (Inl e, d1) \<Rightarrow> (Some e, d1)
      | (Inr notification, d1) \<Rightarrow>
          (case related_users_remove fails notification related_user d1 of
             (Some e, d2) \<Rightarrow> (Some e, d2)
           | (None, d2) \<Rightarrow>
               (case related_users_exists fails notification d2 of
                  (Inl e, d3) \<Rightarrow> (Some e, d3)
                | (Inr ex, d3) \<Rightarrow> if \<not> ex then delete fails notification d3 else (None, d3))))"

section \<open>Event reactions\<close>

text \<open>The keyword arguments that the reactions pass to the lookups.\<close>

definition FAVORITE_kwargs :: "status \<Rightarrow> kwargs" where
  "FAVORITE_kwargs s =
     \<lparr> kw_notification_type = Some ''FAVORITE'', kw_related_status = Some (status_pk s),
       kw_related_import = None \<rparr>"

definition REPLY_kwargs :: "status \<Rightarrow> kwargs" where
  "REPLY_kwargs s =
     \<lparr> kw_notification_type = Some ''REPLY'', kw_related_status = Some (status_pk s),
       kw_related_import = None \<rparr>"

definition MENTION_kwargs :: "status \<Rightarrow> kwargs" where
  "MENTION_kwargs s =
     \<lparr> kw_notification_type = Some ''MENTION'', kw_related_status = Some (status_pk s),
       kw_related_import = None \<rparr>"

definition BOOST_kwargs :: "status \<Rightarrow> kwargs" where
  "BOOST_kwargs s =
     \<lparr> kw_notification_type = Some ''BOOST'', kw_related_status = Some (status_pk s),
       kw_related_import = None \<rparr>"

definition IMPORT_kwargs :: "import_job \<Rightarrow> kwargs" where
  "IMPORT_kwargs j =
     \<lparr> kw_notification_type = Some ''IMPORT'', kw_related_status = None,
       kw_related_import = Some (import_pk j) \<rparr>"

definition REPORT_kwargs :: kwargs where
  "REPORT_kwargs =
     \<lparr> kw_notification_type = Some ''REPORT'', kw_related_status = None,
       kw_related_import = None \<rparr>"

text \<open>\<^verbatim>\<open>post_save\<close> of Favorite, under \<^verbatim>\<open>transaction.atomic()\<close>.\<close>

definition notify_on_fav :: "env \<Rightarrow> favorite \<Rightarrow> db \<Rightarrow> error option \<times> db" where
  "notify_on_fav fails inst =
     atomic (notify fails (status_user (fav_status inst)) (fav_user inst)
               (FAVORITE_kwargs (fav_status inst)))"

text \<open>\<^verbatim>\<open>post_delete\<close> of Favorite.\<close>

definition notify_on_unfav :: "env \<Rightarrow> favorite \<Rightarrow> db \<Rightarrow> error option \<times> db" where
  "notify_on_unfav fails inst d =
     (if \<not> local (status_user (fav_status inst)) then (None, d)
      else unnotify fails (status_user (fav_status inst)) (fav_user inst)
             (FAVORITE_kwargs (fav_status inst)) d)"

text \<open>
  \<^verbatim>\<open>post_save\<close> of any model: the receiver is not bound to a sender and looks at
  the sender's class itself.
\<close>

datatype model_class = Status_class | Status_subclass | Other_class

definition issubclass_Status :: "model_class \<Rightarrow> bool" where
  "issubclass_Status c = (c \<noteq> Other_class)"

text \<open>The loop over \<^verbatim>\<open>instance.mention_users.all()\<close>.\<close>

fun notify_mentions :: "env \<Rightarrow> status \<Rightarrow> user list \<Rightarrow> db \<Rightarrow> error option \<times> db" where
  "notify_mentions fails inst [] d = (None, d)"
| "notify_mentions fails inst (mention_user # rest) d =
     (if \<not> local mention_user
         \<or> (case reply_parent inst of None \<Rightarrow> False
             | Some parent \<Rightarrow> user_eq mention_user (status_user parent))
      then notify_mentions fails inst rest d
      else case notify fails mention_user (status_user inst) (MENTION_kwargs inst) d of
             (Some e, d') \<Rightarrow> (Some e, d')
           | (None, d') \<Rightarrow> notify_mentions fails inst rest d')"

text \<open>The reply notification: the first \<^verbatim>\<open>if\<close> of the receiver, after the two early returns.\<close>

definition notify_reply :: "env \<Rightarrow> status \<Rightarrow> db \<Rightarrow> error option \<times> db" where
  "notify_reply fails inst d =
     (case reply_parent inst of
        None \<Rightarrow> (None, d)
      | Some parent \<Rightarrow>
          if \<not> user_eq (status_user parent) (status_user inst) \<and> local (status_user parent)
          then notify fails (status_user parent) (status_user inst) (REPLY_kwargs inst) d
          else (None, d))"

definition notify_user_on_mention_body ::
    "env \<Rightarrow> model_class \<Rightarrow> status \<Rightarrow> db \<Rightarrow> error option \<times> db" where
  "notify_user_on_mention_body fails sender inst d =
     (if \<not> issubclass_Status sender then (None, d)
      else if deleted inst then filter_delete fails inst d
      else case notify_reply fails inst d of
             (Some e, d1) \<Rightarrow> (Some e, d1)
           | (None, d1) \<Rightarrow> notify_mentions fails inst (mention_users inst) d1)"

definition notify_user_on_mention ::
    "env \<Rightarrow> model_class \<Rightarrow> status \<Rightarrow> db \<Rightarrow> error option \<times> db" where
  "notify_user_on_mention fails sender inst =
     atomic (notify_user_on_mention_body fails sender inst)"

text \<open>\<^verbatim>\<open>post_save\<close> of Boost, under \<^verbatim>\<open>transaction.atomic\<close>.\<close>

definition notify_user_on_boost :: "env \<Rightarrow> boost \<Rightarrow> db \<Rightarrow> error option \<times> db" where
  "notify_user_on_boost fails inst =
     atomic (\<lambda>d.
       if \<not> local (status_user (boosted_status inst))
          \<or> user_eq (status_user (boosted_status inst)) (boost_user inst)
       then (None, d)
       else notify fails (status_user (boosted_status inst)) (boost_user inst)
              (BOOST_kwargs (boosted_status inst)) d)"

text \<open>\<^verbatim>\<open>post_delete\<close> of Boost.\<close>

definition notify_user_on_unboost :: "env \<Rightarrow> boost \<Rightarrow> db \<Rightarrow> error option \<times> db" where
  "notify_user_on_unboost fails inst =
     unnotify fails (status_user (boosted_status inst)) (boost_user inst)
       (BOOST_kwargs (boosted_status inst))"

text \<open>
  \<^verbatim>\<open>post_save\<close> of ImportJob. \<^verbatim>\<open>update_fields\<close> is the keyword of the signal, \<open>None\<close>
  when the save named no fields.
\<close>

definition notify_user_on_import_complete ::
    "env \<Rightarrow> import_job \<Rightarrow> string list option \<Rightarrow> db \<Rightarrow> error option \<times> db" where
  "notify_user_on_import_complete fails inst update_fields d =
     (let update_fields = (case update_fields of None \<Rightarrow> [] | Some fs \<Rightarrow> fs) in
      if \<not> complete inst \<or> ''complete'' \<notin> set update_fields then (None, d)
      else case create fails (user_pk (import_user inst)) (IMPORT_kwargs inst) d of
             (Inl e, d') \<Rightarrow> (Some e, d')
           | (Inr _, d') \<Rightarrow> (None, d'))"





section \<open>Integrity of the notification table\<close>

text \<open>
  The primary key constraint: no two rows share a key, and the key sequence is
  ahead of every key in use.
\<close>

definition wf_db :: "db \<Rightarrow> bool" where
  "wf_db d = (distinct (map pk (notifications d))
              \<and> list_all (\<lambda>n. pk n < next_pk d) (notifications d))"

section \<open>Notions used in the statements\<close>


text \<open>The guard of the mention loop: the mentioned user wrote the status replied to.\<close>

definition is_reply_parent_user :: "status \<Rightarrow> user \<Rightarrow> bool" where
  "is_reply_parent_user inst mention_user =
     (case reply_parent inst of None \<Rightarrow> False
      | Some parent \<Rightarrow> user_eq mention_user (status_user parent))"

text \<open>The notifications of one user that have a given type.\<close>

definition rows_of :: "nat \<Rightarrow> string \<Rightarrow> db \<Rightarrow> notification list" where
  "rows_of uid t d =
     filter (\<lambda>n. user_id n = uid \<and> notification_type n = t) (notifications d)"



text \<open>
  The database that one pass of the loop over the admins leaves when it does not
  raise: the REPORT notification of the admin, created if there was none, has the
  report among its related reports.
\<close>

definition after_report :: "nat \<Rightarrow> report \<Rightarrow> db \<Rightarrow> db" where
  "after_report uid r d =
     (case filter (matches uid REPORT_kwargs) (notifications d) of
        [] \<Rightarrow> d\<lparr> notifications := notifications d
                   @ [(new_row (next_pk d) uid REPORT_kwargs)\<lparr> related_reports := {report_pk r} \<rparr>],
                 next_pk := Suc (next_pk d) \<rparr>
      | n # _ \<Rightarrow> d\<lparr> notifications :=
                      map (\<lambda>m. if pk m = pk n
                                then m\<lparr> related_reports := insert (report_pk r) (related_reports m) \<rparr>
                                else m) (notifications d) \<rparr>)"

text \<open>
  The combination a notification stands for: its user, its type and the status or
  import job it is about. A table has one notification per combination when no two
  of its rows stand for the same.
\<close>

definition combination :: "notification \<Rightarrow> nat \<times> string \<times> nat option \<times> nat option" where
  "combination n = (user_id n, notification_type n, related_status_id n, related_import_id n)"


section \<open>Example data\<close>

text \<open>
  Users: alice, bob and erin are local, carol is not; dave holds both moderation
  permissions and \<open>root_user\<close> is a superuser. Statuses: two posts of alice, the
  first of them once more as deleted, and a reply of bob to the first that mentions
  alice, carol and erin.
\<close>

definition alice :: user where
  "alice = \<lparr> user_pk = 1, local = True, is_superuser = False, user_permissions = [] \<rparr>"

definition bob :: user where
  "bob = \<lparr> user_pk = 2, local = True, is_superuser = False, user_permissions = [] \<rparr>"

definition carol :: user where
  "carol = \<lparr> user_pk = 3, local = False, is_superuser = False, user_permissions = [] \<rparr>"


definition erin :: user where
  "erin = \<lparr> user_pk = 5, local = True, is_superuser = False, user_permissions = [] \<rparr>"


definition post10 :: status where
  "post10 = Status 10 alice False None []"

definition post11 :: status where
  "post11 = Status 11 alice False None []"

definition deleted_post10 :: status where
  "deleted_post10 = Status 10 alice True None [bob]"

definition reply12 :: status where
  "reply12 = Status 12 bob False (Some post10) [alice, carol, erin]"



definition FAVORITE_any :: kwargs where
  "FAVORITE_any = \<lparr> kw_notification_type = Some ''FAVORITE'', kw_related_status = None,
       kw_related_import = None \<rparr>"

definition empty_db :: db where
  "empty_db = \<lparr> notifications = [], next_pk = 1, users = [alice, bob] \<rparr>"

definition one_fav_db :: db where
  "one_fav_db =
     \<lparr> notifications =
         [\<lparr> pk = 1, user_id = 1, read = False, notification_type = ''FAVORITE'',
            related_users = {2}, related_groups = {}, related_status_id = Some 10,
            related_import_id = None, related_list_items = {}, related_reports = {} \<rparr>],
       next_pk = 2, users = [alice, bob] \<rparr>"

definition two_favs_db :: db where
  "two_favs_db =
     \<lparr> notifications =
         [\<lparr> pk = 1, user_id = 1, read = True, notification_type = ''FAVORITE'',
            related_users = {3}, related_groups = {}, related_status_id = Some 10,
            related_import_id = None, related_list_items = {}, related_reports = {} \<rparr>,
          \<lparr> pk = 2, user_id = 1, read = False, notification_type = ''FAVORITE'',
            related_users = {3}, related_groups = {}, related_status_id = Some 11,
            related_import_id = None, related_list_items = {}, related_reports = {} \<rparr>],
       next_pk = 3, users = [alice, bob] \<rparr>"



section \<open>Auxiliary facts\<close>

lemmas orm_defs =
  notify_def atomic_def notify_body_def get_or_create_def insert_row_def new_row_def
  notification_type_valid_def NotificationType_values_def related_users_add_def save_def
  update_rows_def matches_def user_eq_def filter_get_def related_users_remove_def
  related_users_exists_def delete_def unnotify_def create_def filter_delete_def Let_def

lemmas reaction_defs =
  notify_on_fav_def notify_on_unfav_def notify_user_on_mention_def
  notify_user_on_mention_body_def notify_reply_def issubclass_Status_def
  notify_user_on_boost_def notify_user_on_unboost_def notify_user_on_import_complete_def
  MENTION_kwargs_def REPLY_kwargs_def BOOST_kwargs_def IMPORT_kwargs_def REPORT_kwargs_def

lemmas example_defs =
  alice_def bob_def carol_def post10_def post11_def empty_db_def two_favs_db_def
  FAVORITE_kwargs_def FAVORITE_any_def

lemma wf_db_empty_db: "wf_db empty_db"
  by (simp add: wf_db_def empty_db_def)

lemma wf_db_one_fav_db: "wf_db one_fav_db"
  by (simp add: wf_db_def one_fav_db_def)

lemma wf_db_two_favs_db: "wf_db two_favs_db"
  by (simp add: wf_db_def two_favs_db_def)


lemma filter_single_mem: "filter P xs = [n] \<Longrightarrow> n \<in> set xs \<and> P n"
  by (metis filter_eq_ConsD in_set_conv_decomp)

lemma distinct_pk_eq:
  "distinct (map pk xs) \<Longrightarrow> n \<in> set xs \<Longrightarrow> m \<in> set xs \<Longrightarrow> pk m = pk n \<Longrightarrow> m = n"
  by (meson distinct_map inj_onD)

lemma wf_db_fresh: "wf_db d \<Longrightarrow> m \<in> set (notifications d) \<Longrightarrow> pk m \<noteq> next_pk d"
  by (auto simp: wf_db_def list_all_iff)

lemma matches_related_users [simp]:
  "matches uid kw (n\<lparr> related_users := X \<rparr>) = matches uid kw n"
  by (simp add: matches_def split: option.splits)

lemma matches_related_reports [simp]:
  "matches uid kw (n\<lparr> related_reports := X \<rparr>) = matches uid kw n"
  by (simp add: matches_def split: option.splits)

lemma matches_new_row [simp]: "matches uid kw (new_row p uid kw)"
  by (simp add: matches_def new_row_def split: option.splits)

lemma map_upd_append_fresh:
  assumes "\<And>m. m \<in> set xs \<Longrightarrow> pk m \<noteq> p" and "pk n0 = p"
  shows "map (\<lambda>m. if pk m = p then f m else m) (xs @ [n0]) = xs @ [f n0]"
  using assms by (simp add: map_idI)

lemma map_pk_comp_upd:
  assumes "\<And>m. pk (g m) = pk m"
  shows "map (pk \<circ> (\<lambda>m. if pk m = p then g m else m)) xs = map pk xs"
  using assms by (induction xs) auto

lemma list_all_pk_upd:
  assumes "\<And>m. pk (g m) = pk m"
  shows "list_all (\<lambda>n. pk n < k) (map (\<lambda>m. if pk m = p then g m else m) xs)
         = list_all (\<lambda>n. pk n < k) xs"
  using assms by (induction xs) auto

lemma map_ext_upd:
  assumes "\<And>m. h (g m) = h m"
  shows "map h (map (\<lambda>m. if pk m = p then g m else m) xs) = map h xs"
  using assms by (induction xs) auto

lemma filter_pk_upd:
  assumes "\<And>m. pk (g m) = pk m"
  shows "filter (\<lambda>m. pk m \<noteq> p) (map (\<lambda>m. if pk m = p then g m else m) xs)
         = filter (\<lambda>m. pk m \<noteq> p) xs"
  using assms by (induction xs) auto


subsection \<open>What \<^verbatim>\<open>notify\<close> computes on a working database\<close>

lemma notify_body_fetch:
  assumes wf: "wf_db d" and loc: "local u" "\<not> user_eq u ru"
    and one: "filter (matches (user_pk u) kw) (notifications d) = [n]"
  shows "notify_body no_failure u ru kw d =
           (None, d\<lparr> notifications :=
                       map (\<lambda>m. if pk m = pk n
                                 then m\<lparr> related_users := insert (user_pk ru) (related_users m) \<rparr>
                                 else m) (notifications d) \<rparr>)"
proof -
  have mem: "n \<in> set (notifications d)" using filter_single_mem[OF one] by simp
  have dist: "distinct (map pk (notifications d))" using wf by (simp add: wf_db_def)
  have same: "\<And>m. m \<in> set (notifications d) \<Longrightarrow> pk m = pk n \<Longrightarrow> m = n"
    using distinct_pk_eq[OF dist mem] by blast
  have "map (\<lambda>m. if pk m = pk n
                   then m\<lparr> user_id := user_id n, read := read n,
                           notification_type := notification_type n,
                           related_status_id := related_status_id n,
                           related_import_id := related_import_id n \<rparr>
                   else m)
          (map (\<lambda>m. if pk m = pk n
                     then m\<lparr> related_users := insert (user_pk ru) (related_users m) \<rparr> else m)
             (notifications d))
        = map (\<lambda>m. if pk m = pk n
                     then m\<lparr> related_users := insert (user_pk ru) (related_users m) \<rparr> else m)
             (notifications d)"
    by (auto dest: same)
  then show ?thesis
    using loc one
    by (simp add: notify_body_def get_or_create_def no_failure_def related_users_add_def
        save_def update_rows_def)
qed

lemma notify_body_create:
  assumes wf: "wf_db d" and loc: "local u" "\<not> user_eq u ru"
    and none: "filter (matches (user_pk u) kw) (notifications d) = []"
    and valid: "notification_type_valid (new_row (next_pk d) (user_pk u) kw)"
  shows "notify_body no_failure u ru kw d =
           (None, d\<lparr> notifications := notifications d
                        @ [(new_row (next_pk d) (user_pk u) kw)\<lparr> related_users := {user_pk ru} \<rparr>],
                     next_pk := Suc (next_pk d) \<rparr>)"
proof -
  let ?n0 = "new_row (next_pk d) (user_pk u) kw"
  let ?inst = "\<lparr> row = ?n0, unread = None \<rparr>"
  let ?d1 = "d\<lparr> notifications := notifications d @ [?n0], next_pk := Suc (next_pk d) \<rparr>"
  let ?d2 = "d\<lparr> notifications := notifications d @ [?n0\<lparr> related_users := {user_pk ru} \<rparr>],
                next_pk := Suc (next_pk d) \<rparr>"
  have fresh: "\<And>m. m \<in> set (notifications d) \<Longrightarrow> pk m \<noteq> next_pk d"
    using wf by (rule wf_db_fresh)
  have pkn: "pk ?n0 = next_pk d"
    by (simp add: new_row_def)
  have goc: "get_or_create no_failure (user_pk u) kw d = (Inr ?inst, ?d1)"
    using none valid by (simp add: get_or_create_def no_failure_def insert_row_def Let_def)
  have add: "related_users_add no_failure ?inst ru ?d1 = (None, ?d2)"
    using map_upd_append_fresh[of "notifications d" "next_pk d" ?n0, OF fresh pkn]
    by (simp add: related_users_add_def no_failure_def update_rows_def pkn new_row_def)
  have pkn': "pk (?n0\<lparr> related_users := {user_pk ru} \<rparr>) = next_pk d"
    by (simp add: new_row_def)
  have sv: "save no_failure \<lparr> row = ?n0, unread = Some True \<rparr> ?d2 = (None, ?d2)"
    using map_upd_append_fresh[of "notifications d" "next_pk d"
        "?n0\<lparr> related_users := {user_pk ru} \<rparr>", OF fresh pkn']
    by (simp add: save_def no_failure_def update_rows_def pkn new_row_def)
  show ?thesis
    using loc by (simp add: notify_body_def goc add sv)
qed

lemma notify_body_invalid:
  assumes "local u" "\<not> user_eq u ru"
    and "filter (matches (user_pk u) kw) (notifications d) = []"
    and "\<not> notification_type_valid (new_row (next_pk d) (user_pk u) kw)"
  shows "notify_body no_failure u ru kw d = (Some IntegrityError, d)"
  using assms by (simp add: notify_body_def get_or_create_def no_failure_def insert_row_def Let_def)

lemma notify_body_multiple:
  assumes "local u" "\<not> user_eq u ru"
    and "filter (matches (user_pk u) kw) (notifications d) = n1 # n2 # ns"
  shows "notify_body no_failure u ru kw d = (Some MultipleObjectsReturned, d)"
  using assms by (simp add: notify_body_def get_or_create_def no_failure_def)

lemma notify_result:
  assumes wf: "wf_db d" and loc: "local u" "\<not> user_eq u ru"
  shows "notify no_failure u ru kw d =
     (case filter (matches (user_pk u) kw) (notifications d) of
        [] \<Rightarrow>
          if notification_type_valid (new_row (next_pk d) (user_pk u) kw)
          then (None, d\<lparr> notifications := notifications d
                   @ [(new_row (next_pk d) (user_pk u) kw)\<lparr> related_users := {user_pk ru} \<rparr>],
                 next_pk := Suc (next_pk d) \<rparr>)
          else (Some IntegrityError, d)
      | [n] \<Rightarrow>
          (None, d\<lparr> notifications :=
                     map (\<lambda>m. if pk m = pk n
                               then m\<lparr> related_users := insert (user_pk ru) (related_users m) \<rparr>
                               else m) (notifications d) \<rparr>)
      | _ \<Rightarrow> (Some MultipleObjectsReturned, d))"
proof (cases "filter (matches (user_pk u) kw) (notifications d)")
  case Nil
  then show ?thesis
    using notify_body_create[OF wf loc Nil] notify_body_invalid[OF loc Nil]
    by (simp add: notify_def atomic_def)
next
  case (Cons n1 ns)
  show ?thesis
  proof (cases ns)
    case Nil
    with Cons have one: "filter (matches (user_pk u) kw) (notifications d) = [n1]" by simp
    show ?thesis
      using notify_body_fetch[OF wf loc one] one by (simp add: notify_def atomic_def)
  next
    case (Cons n2 ns')
    with \<open>filter (matches (user_pk u) kw) (notifications d) = n1 # ns\<close>
    have many: "filter (matches (user_pk u) kw) (notifications d) = n1 # n2 # ns'" by simp
    show ?thesis
      using notify_body_multiple[OF loc many] many by (simp add: notify_def atomic_def)
  qed
qed

lemma notify_noop:
  "\<not> local u \<or> user_eq u ru \<Longrightarrow> notify fails u ru kw d = (None, d)"
  by (auto simp: notify_def atomic_def notify_body_def)


lemma notify_fails_cases:
  "snd (notify fails u ru kw d) = d \<or> notify fails u ru kw d = notify no_failure u ru kw d"
proof (cases "fails GetOrCreate \<or> fails RelatedUsersAdd \<or> fails Save")
  case True
  then have "snd (notify fails u ru kw d) = d"
    by (auto simp: notify_def atomic_def notify_body_def get_or_create_def related_users_add_def
        save_def split: prod.splits option.splits sum.splits)
  then show ?thesis ..
next
  case False
  then have a: "get_or_create fails = get_or_create no_failure"
    and b: "related_users_add fails = related_users_add no_failure"
    and c: "save fails = save no_failure"
    by (auto intro!: ext simp: get_or_create_def related_users_add_def save_def no_failure_def)
  have "notify_body fails u ru kw = notify_body no_failure u ru kw"
    by (intro ext) (simp add: notify_body_def a b c split: prod.splits sum.splits option.splits)
  then have "notify fails u ru kw d = notify no_failure u ru kw d"
    by (simp add: notify_def)
  then show ?thesis ..
qed

lemma wf_db_notify:
  assumes wf: "wf_db d"
  shows "wf_db (snd (notify no_failure u ru kw d))"
proof (cases "\<not> local u \<or> user_eq u ru")
  case True
  then show ?thesis using wf by (simp add: notify_noop)
next
  case False
  then have loc: "local u" "\<not> user_eq u ru" by simp_all
  show ?thesis
  proof (cases "filter (matches (user_pk u) kw) (notifications d)")
    case Nil
    have "list_all (\<lambda>n. pk n < Suc (next_pk d)) (notifications d)"
      using wf by (auto simp: wf_db_def list_all_iff)
    then show ?thesis
      using wf wf_db_fresh[OF wf] Nil
      by (auto simp: notify_result[OF wf loc] wf_db_def new_row_def list_all_iff)
  next
    case (Cons n ns)
    then show ?thesis
      using wf
      by (cases ns) (simp_all add: notify_result[OF wf loc] wf_db_def map_pk_comp_upd list_all_pk_upd)
  qed
qed

lemma notify_frame:
  assumes wf: "wf_db d"
    and mem: "n' \<in> set (notifications (snd (notify no_failure u ru kw d)))"
  shows "n' \<in> set (notifications d)
         \<or> (local u \<and> \<not> user_eq u ru \<and> matches (user_pk u) kw n')"
proof (cases "\<not> local u \<or> user_eq u ru")
  case True
  then show ?thesis using mem by (simp add: notify_noop)
next
  case False
  then have loc: "local u" "\<not> user_eq u ru" by simp_all
  show ?thesis
  proof (cases "filter (matches (user_pk u) kw) (notifications d)")
    case Nil
    then show ?thesis
      using mem loc by (auto simp: notify_result[OF wf loc] split: if_splits)
  next
    case (Cons n ns)
    show ?thesis
    proof (cases ns)
      case (Cons n2 ns')
      with \<open>filter (matches (user_pk u) kw) (notifications d) = n # ns\<close> mem
      show ?thesis by (simp add: notify_result[OF wf loc])
    next
      case Nil
      with Cons have one: "filter (matches (user_pk u) kw) (notifications d) = [n]" by simp
      have nmem: "n \<in> set (notifications d)" and nmatch: "matches (user_pk u) kw n"
        using filter_single_mem[OF one] by simp_all
      have dist: "distinct (map pk (notifications d))" using wf by (simp add: wf_db_def)
      from mem one obtain m where m: "m \<in> set (notifications d)"
        and n': "n' = (if pk m = pk n
                       then m\<lparr> related_users := insert (user_pk ru) (related_users m) \<rparr>
                       else m)"
        by (auto simp: notify_result[OF wf loc])
      show ?thesis
      proof (cases "pk m = pk n")
        case True
        then have "m = n" using distinct_pk_eq[OF dist nmem m] by simp
        then show ?thesis using n' nmatch loc by simp
      next
        case False
        then show ?thesis using n' m by simp
      qed
    qed
  qed
qed

subsection \<open>What \<^verbatim>\<open>unnotify\<close> computes\<close>

lemma exists_after_remove:
  assumes dist: "distinct (map pk xs)" and mem: "n \<in> set xs"
  shows "(\<exists>m \<in> set (map (\<lambda>m. if pk m = pk n
                              then m\<lparr> related_users := related_users m - {x} \<rparr> else m) xs).
            pk m = pk n \<and> related_users m \<noteq> {})
         = (related_users n - {x} \<noteq> {})"
proof -
  let ?f = "\<lambda>m. if pk m = pk n then m\<lparr> related_users := related_users m - {x} \<rparr> else m"
  have same: "\<And>m. m \<in> set xs \<Longrightarrow> pk m = pk n \<Longrightarrow> m = n"
    using distinct_pk_eq[OF dist mem] by blast
  have "(\<exists>m \<in> set (map ?f xs). pk m = pk n \<and> related_users m \<noteq> {})
        = (\<exists>m \<in> set xs. pk (?f m) = pk n \<and> related_users (?f m) \<noteq> {})"
    by (simp only: set_map bex_simps)
  also have "\<dots> = (\<exists>m \<in> set xs. pk m = pk n \<and> related_users m - {x} \<noteq> {})"
    by (rule bex_cong) simp_all
  also have "\<dots> = (related_users n - {x} \<noteq> {})"
    using mem same by blast
  finally show ?thesis .
qed

lemma unnotify_after_lookup:
  assumes wf: "wf_db d"
    and one: "filter (matches (user_pk u) kw) (notifications d) = [n]"
    and ok: "\<not> fails FilterGet" "\<not> fails RelatedUsersRemove"
  shows "unnotify fails u ru kw d =
     (let d2 = d\<lparr> notifications :=
                   map (\<lambda>m. if pk m = pk n
                             then m\<lparr> related_users := related_users m - {user_pk ru} \<rparr>
                             else m) (notifications d) \<rparr>
      in if fails RelatedUsersExists then (Some OperationalError, d2)
         else if related_users n - {user_pk ru} \<noteq> {} then (None, d2)
         else if fails Delete then (Some OperationalError, d2)
         else (None, d\<lparr> notifications := filter (\<lambda>m. pk m \<noteq> pk n) (notifications d) \<rparr>))"
proof -
  let ?inst = "\<lparr> row = n, unread = None \<rparr>"
  let ?f = "\<lambda>m. if pk m = pk n
                 then m\<lparr> related_users := related_users m - {user_pk ru} \<rparr> else m"
  let ?d2 = "d\<lparr> notifications := map ?f (notifications d) \<rparr>"
  have mem: "n \<in> set (notifications d)" using filter_single_mem[OF one] by simp
  have dist: "distinct (map pk (notifications d))" using wf by (simp add: wf_db_def)
  have fg: "filter_get fails (user_pk u) kw d = (Inr ?inst, d)"
    using one ok by (simp add: filter_get_def)
  have rm: "related_users_remove fails ?inst ru d = (None, ?d2)"
    using ok by (simp add: related_users_remove_def update_rows_def)
  have ex: "related_users_exists fails ?inst ?d2 =
              (if fails RelatedUsersExists then (Inl OperationalError, ?d2)
               else (Inr (related_users n - {user_pk ru} \<noteq> {}), ?d2))"
    using exists_after_remove[OF dist mem, of "user_pk ru"]
    by (simp add: related_users_exists_def del: set_map map_map)
  have flt: "filter (\<lambda>m. pk m \<noteq> pk n) (map ?f (notifications d))
             = filter (\<lambda>m. pk m \<noteq> pk n) (notifications d)"
    by (rule filter_pk_upd) simp
  have dl: "delete fails ?inst ?d2 =
              (if fails Delete then (Some OperationalError, ?d2)
               else (None, d\<lparr> notifications := filter (\<lambda>m. pk m \<noteq> pk n) (notifications d) \<rparr>))"
    using flt by (simp add: delete_def del: map_map)
  show ?thesis
    by (simp add: unnotify_def fg rm ex dl Let_def del: map_map)
qed

section \<open>Properties of \<^verbatim>\<open>notify\<close>\<close>

text \<open>
  C3 (amended). \<^verbatim>\<open>notify(user, related_user, **kwargs)\<close> is a no-op when the user is
  not local or is the related user. Otherwise, when exactly one notification
  matches the user and the keyword arguments, the related user is added to that
  notification; when none matches, a notification is created from the user and
  the keyword arguments, with the related user as its only related user, provided
  its type is one of the notification types; when several match the call raises
  \<^verbatim>\<open>MultipleObjectsReturned\<close>, and when the type is not valid it raises
  \<^verbatim>\<open>IntegrityError\<close>, both leaving the database as it was.
\<close>

theorem notify_fetch_or_create:
  assumes "wf_db d"
  shows "(\<not> local u \<or> user_eq u ru \<longrightarrow> notify no_failure u ru kw d = (None, d))
    \<and> (local u \<and> \<not> user_eq u ru
         \<and> filter (matches (user_pk u) kw) (notifications d) = [n]
       \<longrightarrow> notify no_failure u ru kw d =
             (None, d\<lparr> notifications :=
                        map (\<lambda>m. if pk m = pk n
                                  then m\<lparr> related_users := insert (user_pk ru) (related_users m) \<rparr>
                                  else m) (notifications d) \<rparr>))
    \<and> (local u \<and> \<not> user_eq u ru
         \<and> filter (matches (user_pk u) kw) (notifications d) = []
         \<and> notification_type_valid (new_row (next_pk d) (user_pk u) kw)
       \<longrightarrow> notify no_failure u ru kw d =
             (None, d\<lparr> notifications := notifications d
                        @ [(new_row (next_pk d) (user_pk u) kw)\<lparr> related_users := {user_pk ru} \<rparr>],
                      next_pk := Suc (next_pk d) \<rparr>))
    \<and> (local u \<and> \<not> user_eq u ru
         \<and> filter (matches (user_pk u) kw) (notifications d) = []
         \<and> \<not> notification_type_valid (new_row (next_pk d) (user_pk u) kw)
       \<longrightarrow> notify no_failure u ru kw d = (Some IntegrityError, d))
    \<and> (local u \<and> \<not> user_eq u ru
         \<and> 1 < length (filter (matches (user_pk u) kw) (notifications d))
       \<longrightarrow> notify no_failure u ru kw d = (Some MultipleObjectsReturned, d))"
proof -
  have "1 < length (filter (matches (user_pk u) kw) (notifications d)) \<Longrightarrow>
        \<exists>n1 n2 ns. filter (matches (user_pk u) kw) (notifications d) = n1 # n2 # ns"
    by (cases "filter (matches (user_pk u) kw) (notifications d)" rule: remdups_adj.cases) auto
  then show ?thesis
    using assms by (auto simp: notify_noop notify_result)
qed

theorem notify_fetch_or_create_witness:
  "wf_db two_favs_db \<and> local alice \<and> \<not> user_eq alice bob
   \<and> notify no_failure alice bob (FAVORITE_kwargs post10) two_favs_db =
       (None, two_favs_db\<lparr> notifications :=
          [\<lparr> pk = 1, user_id = 1, read = True, notification_type = ''FAVORITE'',
             related_users = {2, 3}, related_groups = {}, related_status_id = Some 10,
             related_import_id = None, related_list_items = {}, related_reports = {} \<rparr>,
           \<lparr> pk = 2, user_id = 1, read = False, notification_type = ''FAVORITE'',
             related_users = {3}, related_groups = {}, related_status_id = Some 11,
             related_import_id = None, related_list_items = {}, related_reports = {} \<rparr>] \<rparr>)"
proof -
  have one: "filter (matches (user_pk alice) (FAVORITE_kwargs post10)) (notifications two_favs_db)
             = [hd (notifications two_favs_db)]"
    by (simp add: example_defs matches_def)
  have loc: "local alice \<and> \<not> user_eq alice bob"
    by (simp add: example_defs user_eq_def)
  from notify_fetch_or_create [OF wf_db_two_favs_db, of alice bob "FAVORITE_kwargs post10"
      "hd (notifications two_favs_db)"] one loc
  have "notify no_failure alice bob (FAVORITE_kwargs post10) two_favs_db =
          (None, two_favs_db\<lparr> notifications :=
             map (\<lambda>m. if pk m = pk (hd (notifications two_favs_db))
                       then m\<lparr> related_users := insert (user_pk bob) (related_users m) \<rparr>
                       else m) (notifications two_favs_db) \<rparr>)"
    by blast
  then show ?thesis
    using loc wf_db_two_favs_db by (simp add: example_defs)
qed

text \<open>
  The claim as stated fails where the lookup is ambiguous: with two FAVORITE
  notifications of alice, a call that filters on the type alone raises and adds
  bob to neither.
\<close>

theorem notify_ambiguous_counterexample:
  "local alice \<and> \<not> user_eq alice bob
   \<and> notify no_failure alice bob FAVORITE_any two_favs_db
       = (Some MultipleObjectsReturned, two_favs_db)
   \<and> list_all (\<lambda>n. user_pk bob \<notin> related_users n)
        (notifications (snd (notify no_failure alice bob FAVORITE_any two_favs_db)))"
  by (simp add: orm_defs no_failure_def example_defs)



text \<open>
  C9. \<^verbatim>\<open>notify\<close> does not change the stored \<^verbatim>\<open>read\<close> flag of any notification that
  is already in the table, whatever the call does and whether or not the database
  fails on the way: the rows present before the call keep their key and their
  flag. The attribute the code sets, \<^verbatim>\<open>unread\<close>, is not a column, and \<^verbatim>\<open>save\<close>
  writes back the flag it read.
\<close>

theorem notify_keeps_read:
  assumes wf: "wf_db d"
  shows "map (\<lambda>n. (pk n, read n))
           (take (length (notifications d)) (notifications (snd (notify fails u ru kw d))))
         = map (\<lambda>n. (pk n, read n)) (notifications d)"
proof -
  have upd: "\<And>p f. map (\<lambda>n. (pk n, read n))
                 (map (\<lambda>m. if pk m = p then m\<lparr> related_users := f m \<rparr> else m) (notifications d))
               = map (\<lambda>n. (pk n, read n)) (notifications d)"
    by (rule map_ext_upd) simp
  have ok: "map (\<lambda>n. (pk n, read n))
              (take (length (notifications d)) (notifications (snd (notify no_failure u ru kw d))))
            = map (\<lambda>n. (pk n, read n)) (notifications d)"
  proof (cases "\<not> local u \<or> user_eq u ru")
    case True
    then show ?thesis by (simp add: notify_noop)
  next
    case False
    then have loc: "local u" "\<not> user_eq u ru" by simp_all
    show ?thesis
      by (simp add: notify_result[OF wf loc] upd split: list.splits)
  qed
  from notify_fails_cases [of fails u ru kw d] show ?thesis
  proof
    assume "snd (notify fails u ru kw d) = d"
    then show ?thesis by simp
  next
    assume "notify fails u ru kw d = notify no_failure u ru kw d"
    then show ?thesis using ok by simp
  qed
qed

theorem notify_keeps_read_witness:
  "wf_db two_favs_db
   \<and> map read (notifications two_favs_db) = [True, False]
   \<and> map (\<lambda>n. (pk n, read n))
        (notifications (snd (notify no_failure alice bob (FAVORITE_kwargs post10) two_favs_db)))
      = [(1, True), (2, False)]
   \<and> map related_users
        (notifications (snd (notify no_failure alice bob (FAVORITE_kwargs post10) two_favs_db)))
      = [{2, 3}, {3}]"
proof -
  have ev: "notifications (snd (notify no_failure alice bob (FAVORITE_kwargs post10) two_favs_db))
      = [\<lparr> pk = 1, user_id = 1, read = True, notification_type = ''FAVORITE'',
             related_users = {2, 3}, related_groups = {}, related_status_id = Some 10,
             related_import_id = None, related_list_items = {}, related_reports = {} \<rparr>,
           \<lparr> pk = 2, user_id = 1, read = False, notification_type = ''FAVORITE'',
             related_users = {3}, related_groups = {}, related_status_id = Some 11,
             related_import_id = None, related_list_items = {}, related_reports = {} \<rparr>]"
    by (simp add: orm_defs no_failure_def example_defs)
  have len: "length (notifications two_favs_db) = 2"
    by (simp add: two_favs_db_def)
  from notify_keeps_read [OF wf_db_two_favs_db, of no_failure alice bob "FAVORITE_kwargs post10"]
  have "map (\<lambda>n. (pk n, read n))
          (notifications (snd (notify no_failure alice bob (FAVORITE_kwargs post10) two_favs_db)))
        = map (\<lambda>n. (pk n, read n)) (notifications two_favs_db)"
    by (simp add: len ev)
  then show ?thesis
    using wf_db_two_favs_db by (simp add: ev) (simp add: two_favs_db_def)
qed

section \<open>Properties of \<^verbatim>\<open>unnotify\<close>\<close>

text \<open>
  C5 (amended). When exactly one notification matches the user and the keyword
  arguments, \<^verbatim>\<open>unnotify\<close> removes the related user from its related users, and
  deletes the notification if and only if no related user remains; every other
  row is left as it was. In particular the notification goes when its last
  related user is removed. When several notifications match, the call raises
  \<^verbatim>\<open>MultipleObjectsReturned\<close> and removes nothing.
\<close>

theorem unnotify_removes_then_deletes:
  assumes wf: "wf_db d"
  shows "(filter (matches (user_pk u) kw) (notifications d) = [n] \<longrightarrow>
            unnotify no_failure u ru kw d =
              (None,
               if related_users n - {user_pk ru} = {}
               then d\<lparr> notifications := filter (\<lambda>m. pk m \<noteq> pk n) (notifications d) \<rparr>
               else d\<lparr> notifications :=
                         map (\<lambda>m. if pk m = pk n
                                   then m\<lparr> related_users := related_users m - {user_pk ru} \<rparr>
                                   else m) (notifications d) \<rparr>))
    \<and> (1 < length (filter (matches (user_pk u) kw) (notifications d)) \<longrightarrow>
            unnotify no_failure u ru kw d = (Some MultipleObjectsReturned, d))"
proof (intro conjI impI)
  assume one: "filter (matches (user_pk u) kw) (notifications d) = [n]"
  have ok: "\<not> no_failure FilterGet" "\<not> no_failure RelatedUsersRemove"
    by (simp_all add: no_failure_def)
  show "unnotify no_failure u ru kw d =
              (None,
               if related_users n - {user_pk ru} = {}
               then d\<lparr> notifications := filter (\<lambda>m. pk m \<noteq> pk n) (notifications d) \<rparr>
               else d\<lparr> notifications :=
                         map (\<lambda>m. if pk m = pk n
                                   then m\<lparr> related_users := related_users m - {user_pk ru} \<rparr>
                                   else m) (notifications d) \<rparr>)"
    by (simp add: unnotify_after_lookup[OF wf one ok] Let_def no_failure_def)
next
  assume "1 < length (filter (matches (user_pk u) kw) (notifications d))"
  then obtain n1 n2 ns where
    "filter (matches (user_pk u) kw) (notifications d) = n1 # n2 # ns"
    by (cases "filter (matches (user_pk u) kw) (notifications d)" rule: remdups_adj.cases) auto
  then show "unnotify no_failure u ru kw d = (Some MultipleObjectsReturned, d)"
    by (simp add: unnotify_def filter_get_def no_failure_def)
qed

theorem unnotify_removes_then_deletes_witness:
  "wf_db one_fav_db
   \<and> filter (matches (user_pk alice) (FAVORITE_kwargs post10)) (notifications one_fav_db)
       = notifications one_fav_db
   \<and> map related_users (notifications one_fav_db) = [{user_pk bob}]
   \<and> unnotify no_failure alice bob (FAVORITE_kwargs post10) one_fav_db
       = (None, one_fav_db\<lparr> notifications := [] \<rparr>)"
proof -
  have one: "filter (matches (user_pk alice) (FAVORITE_kwargs post10)) (notifications one_fav_db)
             = [hd (notifications one_fav_db)]"
    by (simp add: example_defs one_fav_db_def matches_def)
  have rows: "notifications one_fav_db = [hd (notifications one_fav_db)]"
    by (simp add: one_fav_db_def)
  have rel: "map related_users (notifications one_fav_db) = [{user_pk bob}]"
    by (simp add: one_fav_db_def bob_def)
  from unnotify_removes_then_deletes [OF wf_db_one_fav_db, of alice "FAVORITE_kwargs post10"
      "hd (notifications one_fav_db)" bob] one
  have "unnotify no_failure alice bob (FAVORITE_kwargs post10) one_fav_db =
          (None,
           if related_users (hd (notifications one_fav_db)) - {user_pk bob} = {}
           then one_fav_db\<lparr> notifications :=
                  filter (\<lambda>m. pk m \<noteq> pk (hd (notifications one_fav_db)))
                    (notifications one_fav_db) \<rparr>
           else one_fav_db\<lparr> notifications :=
                  map (\<lambda>m. if pk m = pk (hd (notifications one_fav_db))
                            then m\<lparr> related_users := related_users m - {user_pk bob} \<rparr>
                            else m) (notifications one_fav_db) \<rparr>)"
    by blast
  then have "unnotify no_failure alice bob (FAVORITE_kwargs post10) one_fav_db
        = (None, one_fav_db\<lparr> notifications := [] \<rparr>)"
    by (simp add: one_fav_db_def bob_def)
  then show ?thesis
    using wf_db_one_fav_db one rows rel by simp
qed

text \<open>
  The claim as stated fails where several notifications match: \<^verbatim>\<open>get()\<close> raises
  \<^verbatim>\<open>MultipleObjectsReturned\<close>, which \<^verbatim>\<open>unnotify\<close> does not catch, and carol
  stays a related user of both.
\<close>

theorem unnotify_ambiguous_counterexample:
  "length (filter (matches (user_pk alice) FAVORITE_any) (notifications two_favs_db)) = 2
   \<and> unnotify no_failure alice carol FAVORITE_any two_favs_db
       = (Some MultipleObjectsReturned, two_favs_db)
   \<and> list_all (\<lambda>n. user_pk carol \<in> related_users n)
        (notifications (snd (unnotify no_failure alice carol FAVORITE_any two_favs_db)))"
  by (simp add: orm_defs no_failure_def example_defs)

text \<open>
  C10. A call of \<^verbatim>\<open>unnotify\<close> for which no notification matches the user and the
  keyword arguments returns normally (the \<^verbatim>\<open>DoesNotExist\<close> of the lookup is caught)
  and leaves the database as it was.
\<close>

theorem unnotify_no_match:
  "filter (matches (user_pk u) kw) (notifications d) = []
   \<Longrightarrow> unnotify no_failure u related_user kw d = (None, d)"
  by (simp add: unnotify_def filter_get_def no_failure_def)

theorem unnotify_no_match_witness:
  "filter (matches (user_pk alice) (FAVORITE_kwargs post10)) (notifications empty_db) = []
   \<and> unnotify no_failure alice bob (FAVORITE_kwargs post10) empty_db = (None, empty_db)"
  using unnotify_no_match [of alice "FAVORITE_kwargs post10" empty_db bob]
  by (simp add: empty_db_def)

section \<open>Transaction boundaries\<close>




section \<open>The reaction to a saved status\<close>

lemma notify_mentions_frame:
  assumes "wf_db d"
    and "n' \<in> set (notifications (snd (notify_mentions no_failure inst ms d)))"
  shows "n' \<in> set (notifications d)
         \<or> (\<exists>m \<in> set ms. local m \<and> \<not> is_reply_parent_user inst m
                \<and> matches (user_pk m) (MENTION_kwargs inst) n')"
  using assms
proof (induction ms arbitrary: d)
  case Nil
  then show ?case by simp
next
  case (Cons m ms)
  show ?case
  proof (cases "\<not> local m \<or> is_reply_parent_user inst m")
    case True
    then have "notify_mentions no_failure inst (m # ms) d = notify_mentions no_failure inst ms d"
      by (auto simp: is_reply_parent_user_def)
    then show ?thesis using Cons.IH[OF Cons.prems(1)] Cons.prems(2) by auto
  next
    case False
    let ?r = "notify no_failure m (status_user inst) (MENTION_kwargs inst) d"
    have wf1: "wf_db (snd ?r)" using Cons.prems(1) by (rule wf_db_notify)
    have step: "notify_mentions no_failure inst (m # ms) d =
                  (case ?r of (Some e, d') \<Rightarrow> (Some e, d')
                   | (None, d') \<Rightarrow> notify_mentions no_failure inst ms d')"
      using False by (auto simp: is_reply_parent_user_def)
    have "n' \<in> set (notifications (snd ?r))
          \<or> (\<exists>m \<in> set ms. local m \<and> \<not> is_reply_parent_user inst m
                \<and> matches (user_pk m) (MENTION_kwargs inst) n')"
    proof (cases "fst ?r")
      case None
      then have "notify_mentions no_failure inst (m # ms) d
                 = notify_mentions no_failure inst ms (snd ?r)"
        by (cases ?r) (simp add: step del: notify_mentions.simps)
      then show ?thesis using Cons.IH[OF wf1] Cons.prems(2) by simp
    next
      case (Some e)
      then have "snd (notify_mentions no_failure inst (m # ms) d) = snd ?r"
        by (cases ?r) (simp add: step del: notify_mentions.simps)
      then show ?thesis using Cons.prems(2) by simp
    qed
    then show ?thesis
      using notify_frame[OF Cons.prems(1), of n' m "status_user inst" "MENTION_kwargs inst"] False
      by auto
  qed
qed

lemma notify_reply_frame:
  assumes wf: "wf_db d"
    and mem: "n' \<in> set (notifications (snd (notify_reply no_failure inst d)))"
  shows "n' \<in> set (notifications d)
         \<or> (\<exists>parent. reply_parent inst = Some parent
                \<and> \<not> user_eq (status_user parent) (status_user inst)
                \<and> local (status_user parent)
                \<and> matches (user_pk (status_user parent)) (REPLY_kwargs inst) n')"
proof (cases "reply_parent inst")
  case None
  then show ?thesis using mem by (simp add: notify_reply_def)
next
  case (Some parent)
  show ?thesis
  proof (cases "\<not> user_eq (status_user parent) (status_user inst) \<and> local (status_user parent)")
    case False
    then show ?thesis using mem Some by (auto simp: notify_reply_def)
  next
    case True
    then have "notify_reply no_failure inst d
               = notify no_failure (status_user parent) (status_user inst) (REPLY_kwargs inst) d"
      using Some by (simp add: notify_reply_def)
    then show ?thesis
      using notify_frame[OF wf, of n' "status_user parent" "status_user inst" "REPLY_kwargs inst"]
        mem Some True
      by auto
  qed
qed

lemma wf_db_notify_reply:
  "wf_db d \<Longrightarrow> wf_db (snd (notify_reply no_failure inst d))"
  by (auto simp: notify_reply_def wf_db_notify split: option.splits)

lemma notify_user_on_mention_frame:
  assumes wf: "wf_db d"
    and mem: "n' \<in> set (notifications (snd (notify_user_on_mention no_failure sender inst d)))"
  shows "n' \<in> set (notifications d)
         \<or> (\<exists>parent. reply_parent inst = Some parent
                \<and> \<not> user_eq (status_user parent) (status_user inst)
                \<and> local (status_user parent)
                \<and> matches (user_pk (status_user parent)) (REPLY_kwargs inst) n')
         \<or> (\<exists>m \<in> set (mention_users inst). local m \<and> \<not> is_reply_parent_user inst m
                \<and> matches (user_pk m) (MENTION_kwargs inst) n')"
proof -
  let ?body = "notify_user_on_mention_body no_failure sender inst d"
  have cases: "snd (notify_user_on_mention no_failure sender inst d) = d
               \<or> snd (notify_user_on_mention no_failure sender inst d) = snd ?body"
    by (auto simp: notify_user_on_mention_def atomic_def split: prod.splits option.splits)
  show ?thesis
  proof (cases "snd (notify_user_on_mention no_failure sender inst d) = d")
    case True
    then show ?thesis using mem by simp
  next
    case False
    then have eq: "snd (notify_user_on_mention no_failure sender inst d) = snd ?body"
      using cases by simp
    show ?thesis
    proof (cases "\<not> issubclass_Status sender \<or> deleted inst")
      case True
      then show ?thesis
        using mem eq
        by (auto simp: notify_user_on_mention_body_def filter_delete_def no_failure_def
            split: if_splits)
    next
      case False
      let ?r = "notify_reply no_failure inst d"
      have wf1: "wf_db (snd ?r)" using wf by (rule wf_db_notify_reply)
      have "n' \<in> set (notifications (snd ?r))
            \<or> (\<exists>m \<in> set (mention_users inst). local m \<and> \<not> is_reply_parent_user inst m
                   \<and> matches (user_pk m) (MENTION_kwargs inst) n')"
      proof (cases "fst ?r")
        case None
        then have "?body = notify_mentions no_failure inst (mention_users inst) (snd ?r)"
          using False by (cases ?r) (simp add: notify_user_on_mention_body_def)
        then show ?thesis
          using notify_mentions_frame[OF wf1, of n' inst "mention_users inst"] mem eq by simp
      next
        case (Some e)
        then have "snd ?body = snd ?r"
          using False by (cases ?r) (simp add: notify_user_on_mention_body_def)
        then show ?thesis using mem eq by simp
      qed
      then show ?thesis
        using notify_reply_frame[OF wf, of n' inst] by blast
    qed
  qed
qed

text \<open>
  C6. When a status is saved with its \<^verbatim>\<open>deleted\<close> flag set, the reaction deletes
  every notification whose related status is that status, whoever it belongs to and
  whatever its type, keeps all other rows as they are, and returns before the reply
  and mention notifications: none is created.
\<close>

theorem deleted_status_removes_notifications:
  assumes "issubclass_Status sender" and "deleted inst"
  shows "notify_user_on_mention no_failure sender inst d =
           (None, d\<lparr> notifications :=
                       filter (\<lambda>n. related_status_id n \<noteq> Some (status_pk inst))
                         (notifications d) \<rparr>)"
  using assms
  by (simp add: notify_user_on_mention_def atomic_def notify_user_on_mention_body_def
      filter_delete_def no_failure_def)

theorem deleted_status_removes_notifications_witness:
  "issubclass_Status Status_class \<and> deleted deleted_post10
   \<and> map related_status_id (notifications two_favs_db) = [Some 10, Some 11]
   \<and> mention_users deleted_post10 = [bob]
   \<and> fst (notify_user_on_mention no_failure Status_class deleted_post10 two_favs_db) = None
   \<and> map (\<lambda>n. (pk n, user_id n, notification_type n, related_status_id n))
        (notifications (snd (notify_user_on_mention no_failure Status_class deleted_post10
                               two_favs_db)))
       = [(2, 1, ''FAVORITE'', Some 11)]"
proof -
  have a: "issubclass_Status Status_class" by (simp add: issubclass_Status_def)
  have b: "deleted deleted_post10" by (simp add: deleted_post10_def)
  show ?thesis
    using deleted_status_removes_notifications [OF a b, of two_favs_db] a b
    by (simp add: two_favs_db_def deleted_post10_def)
qed

text \<open>
  C7. The reaction to a saved status gives no MENTION notification to the author
  of the status replied to, and none to a mentioned user who is not local; a REPLY
  notification is only given to the author of the status replied to, and only when
  that author is local and is not the author of the saved status. To be given none
  is stated as: every notification of that type which the user has after the
  reaction is a row that was in the table before it.
\<close>

theorem mention_reaction_suppresses:
  assumes wf: "wf_db d"
  shows "(\<forall>parent. reply_parent inst = Some parent \<longrightarrow>
            set (rows_of (user_pk (status_user parent)) ''MENTION''
                   (snd (notify_user_on_mention no_failure sender inst d)))
            \<subseteq> set (notifications d))
    \<and> (\<forall>p. (\<forall>m \<in> set (mention_users inst). user_pk m = p \<longrightarrow> \<not> local m) \<longrightarrow>
            set (rows_of p ''MENTION'' (snd (notify_user_on_mention no_failure sender inst d)))
            \<subseteq> set (notifications d))
    \<and> (\<forall>p. \<not> (\<exists>parent. reply_parent inst = Some parent
                  \<and> user_pk (status_user parent) = p
                  \<and> local (status_user parent)
                  \<and> \<not> user_eq (status_user parent) (status_user inst)) \<longrightarrow>
            set (rows_of p ''REPLY'' (snd (notify_user_on_mention no_failure sender inst d)))
            \<subseteq> set (notifications d))"
proof (intro conjI allI impI subsetI)
  fix parent n'
  assume par: "reply_parent inst = Some parent"
    and n': "n' \<in> set (rows_of (user_pk (status_user parent)) ''MENTION''
                        (snd (notify_user_on_mention no_failure sender inst d)))"
  then have mem: "n' \<in> set (notifications (snd (notify_user_on_mention no_failure sender inst d)))"
    and uid: "user_id n' = user_pk (status_user parent)"
    and ty: "notification_type n' = ''MENTION''"
    by (simp_all add: rows_of_def)
  from notify_user_on_mention_frame[OF wf mem] show "n' \<in> set (notifications d)"
    using par uid ty
    by (auto simp: matches_def REPLY_kwargs_def MENTION_kwargs_def is_reply_parent_user_def
        user_eq_def)
next
  fix p n'
  assume nonlocal: "\<forall>m \<in> set (mention_users inst). user_pk m = p \<longrightarrow> \<not> local m"
    and n': "n' \<in> set (rows_of p ''MENTION''
                        (snd (notify_user_on_mention no_failure sender inst d)))"
  then have mem: "n' \<in> set (notifications (snd (notify_user_on_mention no_failure sender inst d)))"
    and uid: "user_id n' = p" and ty: "notification_type n' = ''MENTION''"
    by (simp_all add: rows_of_def)
  from notify_user_on_mention_frame[OF wf mem] show "n' \<in> set (notifications d)"
    using nonlocal uid ty
    by (auto simp: matches_def REPLY_kwargs_def MENTION_kwargs_def)
next
  fix p n'
  assume noreply: "\<not> (\<exists>parent. reply_parent inst = Some parent
                  \<and> user_pk (status_user parent) = p
                  \<and> local (status_user parent)
                  \<and> \<not> user_eq (status_user parent) (status_user inst))"
    and n': "n' \<in> set (rows_of p ''REPLY''
                        (snd (notify_user_on_mention no_failure sender inst d)))"
  then have mem: "n' \<in> set (notifications (snd (notify_user_on_mention no_failure sender inst d)))"
    and uid: "user_id n' = p" and ty: "notification_type n' = ''REPLY''"
    by (simp_all add: rows_of_def)
  from notify_user_on_mention_frame[OF wf mem] show "n' \<in> set (notifications d)"
    using noreply uid ty
    by (auto simp: matches_def REPLY_kwargs_def MENTION_kwargs_def)
qed

theorem mention_reaction_suppresses_witness:
  "wf_db empty_db
   \<and> reply_parent reply12 = Some post10 \<and> status_user post10 = alice
   \<and> map (\<lambda>m. (user_pk m, local m)) (mention_users reply12)
       = [(1, True), (3, False), (5, True)]
   \<and> map (\<lambda>n. (user_id n, notification_type n, related_users n))
        (notifications (snd (notify_user_on_mention no_failure Status_class reply12 empty_db)))
       = [(1, ''REPLY'', {2}), (5, ''MENTION'', {2})]
   \<and> rows_of (user_pk alice) ''MENTION''
         (snd (notify_user_on_mention no_failure Status_class reply12 empty_db)) = []
   \<and> rows_of (user_pk carol) ''MENTION''
         (snd (notify_user_on_mention no_failure Status_class reply12 empty_db)) = []"
proof -
  let ?d' = "snd (notify_user_on_mention no_failure Status_class reply12 empty_db)"
  note sup = mention_reaction_suppresses [OF wf_db_empty_db, of reply12 Status_class]
  have par: "reply_parent reply12 = Some post10" by (simp add: reply12_def)
  have au: "status_user post10 = alice" by (simp add: post10_def)
  have empty: "set (notifications empty_db) = {}" by (simp add: empty_db_def)
  have "set (rows_of (user_pk (status_user post10)) ''MENTION'' ?d') \<subseteq> set (notifications empty_db)"
    using sup par by blast
  then have a: "rows_of (user_pk alice) ''MENTION'' ?d' = []"
    by (simp add: empty au)
  have "\<forall>m \<in> set (mention_users reply12). user_pk m = user_pk carol \<longrightarrow> \<not> local m"
    by (simp add: reply12_def example_defs erin_def)
  then have "set (rows_of (user_pk carol) ''MENTION'' ?d') \<subseteq> set (notifications empty_db)"
    using sup by blast
  then have c: "rows_of (user_pk carol) ''MENTION'' ?d' = []"
    by (simp add: empty)
  have ev: "map (\<lambda>n. (user_id n, notification_type n, related_users n)) (notifications ?d')
            = [(1, ''REPLY'', {2}), (5, ''MENTION'', {2})]"
    by (simp add: reaction_defs orm_defs no_failure_def example_defs reply12_def erin_def)
  have ms: "map (\<lambda>m. (user_pk m, local m)) (mention_users reply12)
            = [(1, True), (3, False), (5, True)]"
    by (simp add: reply12_def example_defs erin_def)
  show ?thesis
    using wf_db_empty_db par au ms ev a c by simp
qed

section \<open>The reaction to a saved report\<close>


lemma report_type_valid [simp]: "notification_type_valid (new_row p uid REPORT_kwargs)"
  by (simp add: notification_type_valid_def new_row_def REPORT_kwargs_def
      NotificationType_values_def)




lemma users_after_report [simp]: "users (after_report uid r d) = users d"
  by (simp add: after_report_def split: list.splits)













section \<open>At most one notification per combination\<close>

lemma combination_related_users [simp]:
  "combination (n\<lparr> related_users := X \<rparr>) = combination n"
  by (simp add: combination_def)

lemma combination_related_reports [simp]:
  "combination (n\<lparr> related_reports := X \<rparr>) = combination n"
  by (simp add: combination_def)













end
